theory Spec2Isabelle
  imports Complex_Main
begin

section \<open>Geometry kernel: the discrete line\<close>

text \<open>
  \<^verbatim>\<open>line(r0, c0, r1, c1)\<close> of \<^verbatim>\<open>image_tools.py\<close> is Bresenham's algorithm on Python's
  unbounded integers.  The body of its \<^verbatim>\<open>for c in range(c0, c1 + 1)\<close> loop appends one
  entry to each of the lists \<^verbatim>\<open>rr\<close> and \<^verbatim>\<open>cc\<close> and then updates \<^verbatim>\<open>r\<close> and
  \<^verbatim>\<open>error\<close>; the loop is the recursion \<open>line_loop\<close> over the values of the range,
  with \<^verbatim>\<open>r\<close> and \<^verbatim>\<open>error\<close> passed along.
\<close>

fun line_loop :: "bool \<Rightarrow> int \<Rightarrow> int \<Rightarrow> int \<Rightarrow> int \<Rightarrow> int \<Rightarrow> int list \<Rightarrow> int list \<times> int list" where
  "line_loop steep dr dc step r err [] = ([], [])"
| "line_loop steep dr dc step r err (c # cs) =
     (let err1 = err - dr;
          r' = (if err1 < 0 then r + step else r);
          err' = (if err1 < 0 then err1 + dc else err1);
          rest = line_loop steep dr dc step r' err' cs
      in if steep then (c # fst rest, r # snd rest)
         else (r # fst rest, c # snd rest))"

definition line :: "int \<Rightarrow> int \<Rightarrow> int \<Rightarrow> int \<Rightarrow> int list \<times> int list" where
  "line r0 c0 r1 c1 =
     (let steep = (\<bar>r1 - r0\<bar> > \<bar>c1 - c0\<bar>);
          ra = (if steep then c0 else r0);
          ca = (if steep then r0 else c0);
          rb = (if steep then c1 else r1);
          cb = (if steep then r1 else c1);
          swap = (ca > cb);
          r0' = (if swap then rb else ra);
          c0' = (if swap then cb else ca);
          r1' = (if swap then ra else rb);
          c1' = (if swap then ca else cb);
          dr = \<bar>r1' - r0'\<bar>;
          dc = c1' - c0';
          err = dc div 2;
          step = (if r0' < r1' then 1 else -1)
      in line_loop steep dr dc step r0' err [c0'..c1'])"

text \<open>The (row, column) pairs of a result of \<open>line\<close>, in the order they were appended.\<close>

definition line_points :: "int list \<times> int list \<Rightarrow> (int \<times> int) list" where
  "line_points rc = zip (fst rc) (snd rc)"

subsection \<open>Properties of the loop\<close>

lemma line_loop_march:
  "(if steep then fst else snd) (line_loop steep dr dc step r err cs) = cs"
  by (induction cs arbitrary: r err) (auto simp: Let_def)

lemma line_loop_length_fst:
  "length (fst (line_loop steep dr dc step r err cs)) = length cs"
  by (induction cs arbitrary: r err) (auto simp: Let_def)

lemma line_loop_length_snd:
  "length (snd (line_loop steep dr dc step r err cs)) = length cs"
  by (induction cs arbitrary: r err) (auto simp: Let_def)

lemma line_loop_distinct:
  assumes "distinct cs"
  shows "distinct (line_points (line_loop steep dr dc step r err cs))"
proof (cases steep)
  case True
  then have "fst (line_loop steep dr dc step r err cs) = cs"
    using line_loop_march [of steep dr dc step r err cs] by simp
  with assms show ?thesis
    by (simp add: line_points_def distinct_zipI1)
next
  case False
  then have "snd (line_loop steep dr dc step r err cs) = cs"
    using line_loop_march [of steep dr dc step r err cs] by simp
  with assms show ?thesis
    by (simp add: line_points_def distinct_zipI2)
qed

lemma line_swap_endpoints: "line r1 c1 r0 c0 = line r0 c0 r1 c1"
proof -
  have abs_sym: "\<bar>r0 - r1\<bar> = \<bar>r1 - r0\<bar>" "\<bar>c0 - c1\<bar> = \<bar>c1 - c0\<bar>"
    by simp_all
  show ?thesis
  proof (cases "\<bar>r1 - r0\<bar> > \<bar>c1 - c0\<bar>")
    case True
    then have "r0 \<noteq> r1" by auto
    then consider "r0 < r1" | "r1 < r0" by linarith
    then show ?thesis
      using True by cases (simp_all add: line_def abs_sym Let_def)
  next
    case False
    then consider "c0 < c1" | "c1 < c0" | "c0 = c1" "r0 = r1" by fastforce
    then show ?thesis
      using False by cases (simp_all add: line_def abs_sym Let_def)
  qed
qed

lemma line_length_fst:
  "length (fst (line r0 c0 r1 c1)) = nat (max \<bar>r1 - r0\<bar> \<bar>c1 - c0\<bar>) + 1"
  by (auto simp: line_def Let_def line_loop_length_fst)

lemma line_length_snd:
  "length (snd (line r0 c0 r1 c1)) = nat (max \<bar>r1 - r0\<bar> \<bar>c1 - c0\<bar>) + 1"
  by (auto simp: line_def Let_def line_loop_length_snd)

lemma line_lengths_agree:
  "length (fst (line r0 c0 r1 c1)) = length (snd (line r0 c0 r1 c1))"
  by (simp add: line_length_fst line_length_snd)

lemma line_distinct: "distinct (line_points (line r0 c0 r1 c1))"
  unfolding line_def Let_def by (rule line_loop_distinct) simp

lemma line_points_length:
  "length (line_points (line r0 c0 r1 c1)) = nat (max \<bar>r1 - r0\<bar> \<bar>c1 - c0\<bar>) + 1"
  by (simp add: line_points_def line_length_fst line_length_snd)

section \<open>Arrays, masks and slices\<close>

text \<open>
  A two-dimensional numpy array carries its shape \<^verbatim>\<open>(rows, columns)\<close> and its elements,
  here a list of rows.  An image is such an array, optionally with the boolean mask of
  a numpy masked array (\<open>True\<close> marks an invalid pixel).  Python floats are modelled by
  real numbers.
\<close>

datatype py_error = ValueError string | IndexError string | TypeError string

record 'a ndarray =
  nrows :: nat
  ncols :: nat
  elems :: "'a list list"

record 'a image =
  pixels :: "'a ndarray"
  mask :: "bool ndarray option"

definition wf_ndarray :: "'a ndarray \<Rightarrow> bool" where
  "wf_ndarray a =
     (length (elems a) = nrows a \<and> list_all (\<lambda>row. length row = ncols a) (elems a))"

definition wf_image :: "'a image \<Rightarrow> bool" where
  "wf_image img =
     (wf_ndarray (pixels img) \<and>
      (case mask img of
         None \<Rightarrow> True
       | Some m \<Rightarrow> wf_ndarray m \<and> nrows m = nrows (pixels img) \<and> ncols m = ncols (pixels img)))"

text \<open>\<^verbatim>\<open>int(x)\<close> on a float truncates towards zero.\<close>

definition py_int :: "real \<Rightarrow> int" where
  "py_int x = (if 0 \<le> x then \<lfloor>x\<rfloor> else \<lceil>x\<rceil>)"

text \<open>\<^verbatim>\<open>np.zeros((v, h))\<close> and \<^verbatim>\<open>np.full_like\<close>: an array with every element \<open>x\<close>.\<close>

definition full :: "nat \<Rightarrow> nat \<Rightarrow> 'a \<Rightarrow> 'a ndarray" where
  "full v h x = \<lparr>nrows = v, ncols = h, elems = replicate v (replicate h x)\<rparr>"

text \<open>
  A slice \<^verbatim>\<open>a:b\<close> of an axis of length \<open>n\<close>: a negative bound counts from the end, both
  bounds are clipped to the axis, and the slice is empty when the stop is not after the
  start.  The result is the first index and the number of indices.
\<close>

definition slice_indices :: "nat \<Rightarrow> int \<Rightarrow> int \<Rightarrow> nat \<times> nat" where
  "slice_indices n a b =
     (let lo = (if a < 0 then max 0 (a + int n) else min a (int n));
          hi = (if b < 0 then max 0 (b + int n) else min b (int n))
      in (nat lo, nat (hi - lo)))"

text \<open>\<^verbatim>\<open>arr[a:b, c:d]\<close>.\<close>

definition slice2 :: "'a ndarray \<Rightarrow> int \<Rightarrow> int \<Rightarrow> int \<Rightarrow> int \<Rightarrow> 'a ndarray" where
  "slice2 arr a b c d =
     (let rs = slice_indices (nrows arr) a b;
          cs = slice_indices (ncols arr) c d
      in \<lparr>nrows = snd rs, ncols = snd cs,
          elems = map (\<lambda>row. take (snd cs) (drop (fst cs) row))
                      (take (snd rs) (drop (fst rs) (elems arr)))\<rparr>)"

text \<open>Slicing a masked array slices its mask with it.\<close>

definition image_slice :: "'a image \<Rightarrow> int \<Rightarrow> int \<Rightarrow> int \<Rightarrow> int \<Rightarrow> 'a image" where
  "image_slice img a b c d =
     \<lparr>pixels = slice2 (pixels img) a b c d,
      mask = map_option (\<lambda>m. slice2 m a b c d) (mask img)\<rparr>"

text \<open>
  \<^verbatim>\<open>dst[a:b, c:d] = src\<close>.  numpy broadcasts \<open>src\<close> to the shape of the target slice:
  each axis of \<open>src\<close> has the length of the target's or length 1; otherwise it raises
  \<^verbatim>\<open>ValueError\<close>.
\<close>

definition set_slice2 ::
  "'a ndarray \<Rightarrow> int \<Rightarrow> int \<Rightarrow> int \<Rightarrow> int \<Rightarrow> 'a ndarray \<Rightarrow> py_error + 'a ndarray" where
  "set_slice2 dst a b c d src =
     (let rs = slice_indices (nrows dst) a b;
          cs = slice_indices (ncols dst) c d
      in if (nrows src = snd rs \<or> nrows src = 1) \<and> (ncols src = snd cs \<or> ncols src = 1)
         then Inr (dst\<lparr>elems :=
                map (\<lambda>i. map (\<lambda>j.
                       if fst rs \<le> i \<and> i < fst rs + snd rs \<and> fst cs \<le> j \<and> j < fst cs + snd cs
                       then elems src ! (if nrows src = snd rs then i - fst rs else 0)
                                      ! (if ncols src = snd cs then j - fst cs else 0)
                       else elems dst ! i ! j) [0..<ncols dst]) [0..<nrows dst]\<rparr>)
         else Inl (ValueError ''could not broadcast input array''))"

text \<open>\<^verbatim>\<open>dst[a:b, c:d] = x\<close> for a scalar \<open>x\<close>; \<^verbatim>\<open>dst[:, :] = x\<close> is the case of the whole array.\<close>

definition fill_slice2 :: "'a ndarray \<Rightarrow> int \<Rightarrow> int \<Rightarrow> int \<Rightarrow> int \<Rightarrow> 'a \<Rightarrow> 'a ndarray" where
  "fill_slice2 dst a b c d x =
     (let rs = slice_indices (nrows dst) a b;
          cs = slice_indices (ncols dst) c d
      in dst\<lparr>elems :=
           map (\<lambda>i. map (\<lambda>j.
                  if fst rs \<le> i \<and> i < fst rs + snd rs \<and> fst cs \<le> j \<and> j < fst cs + snd cs
                  then x else elems dst ! i ! j) [0..<ncols dst]) [0..<nrows dst]\<rparr>)"

definition fill_all :: "'a ndarray \<Rightarrow> 'a \<Rightarrow> 'a ndarray" where
  "fill_all dst x = fill_slice2 dst 0 (int (nrows dst)) 0 (int (ncols dst)) x"

subsection \<open>Facts about arrays and slices\<close>


lemma slice_indices_in_range:
  "0 \<le> a \<Longrightarrow> a \<le> b \<Longrightarrow> b \<le> int n \<Longrightarrow> slice_indices n a b = (nat a, nat (b - a))"
  by (simp add: slice_indices_def Let_def)

lemma wf_ndarray_row:
  "wf_ndarray a \<Longrightarrow> i < nrows a \<Longrightarrow> length (elems a ! i) = ncols a"
  by (simp add: wf_ndarray_def list_all_length)

lemma full_nth: "i < v \<Longrightarrow> j < h \<Longrightarrow> elems (full v h x) ! i ! j = x"
  by (simp add: full_def)

lemma wf_full: "wf_ndarray (full v h x)"
  by (simp add: wf_ndarray_def full_def list_all_length)

lemma slice2_shape:
  "0 \<le> a \<Longrightarrow> a \<le> b \<Longrightarrow> b \<le> int (nrows arr) \<Longrightarrow> 0 \<le> c \<Longrightarrow> c \<le> d \<Longrightarrow> d \<le> int (ncols arr) \<Longrightarrow>
   nrows (slice2 arr a b c d) = nat (b - a) \<and> ncols (slice2 arr a b c d) = nat (d - c)"
  by (simp add: slice2_def slice_indices_in_range)

lemma slice2_nth:
  assumes "wf_ndarray arr" "0 \<le> a" "a \<le> b" "b \<le> int (nrows arr)"
    "0 \<le> c" "c \<le> d" "d \<le> int (ncols arr)" "i < nat (b - a)" "j < nat (d - c)"
  shows "elems (slice2 arr a b c d) ! i ! j = elems arr ! (nat a + i) ! (nat c + j)"
proof -
  have len: "length (elems arr) = nrows arr" using assms(1) by (simp add: wf_ndarray_def)
  have ri: "nat a + i < nrows arr" using assms by linarith
  have row: "length (elems arr ! (nat a + i)) = ncols arr"
    using assms(1) ri by (rule wf_ndarray_row)
  have "elems (slice2 arr a b c d) ! i = take (nat (d - c)) (drop (nat c) (elems arr ! (nat a + i)))"
    using assms len ri by (simp add: slice2_def slice_indices_in_range)
  moreover have "nat c \<le> ncols arr" using assms by linarith
  ultimately show ?thesis using assms row by simp
qed

lemma set_slice2_shape:
  "set_slice2 dst a b c d src = Inr res \<Longrightarrow> nrows res = nrows dst \<and> ncols res = ncols dst"
  by (auto simp: set_slice2_def Let_def split: if_splits)

lemma set_slice2_wf:
  "set_slice2 dst a b c d src = Inr res \<Longrightarrow> wf_ndarray res"
  by (auto simp: set_slice2_def Let_def wf_ndarray_def list_all_length split: if_splits)

lemma set_slice2_nth:
  assumes "set_slice2 dst a b c d src = Inr res" "i < nrows dst" "j < ncols dst"
    "0 \<le> a" "a \<le> b" "b \<le> int (nrows dst)" "0 \<le> c" "c \<le> d" "d \<le> int (ncols dst)"
    "nrows src = nat (b - a)" "ncols src = nat (d - c)"
  shows "elems res ! i ! j =
     (if nat a \<le> i \<and> i < nat b \<and> nat c \<le> j \<and> j < nat d
      then elems src ! (i - nat a) ! (j - nat c) else elems dst ! i ! j)"
  using assms
  by (auto simp: set_slice2_def Let_def slice_indices_in_range split: if_splits)

lemma fill_slice2_shape:
  "nrows (fill_slice2 dst a b c d x) = nrows dst \<and> ncols (fill_slice2 dst a b c d x) = ncols dst"
  by (simp add: fill_slice2_def Let_def)

lemma fill_slice2_wf: "wf_ndarray (fill_slice2 dst a b c d x)"
  by (simp add: fill_slice2_def Let_def wf_ndarray_def list_all_length)

lemma fill_slice2_nth:
  assumes "i < nrows dst" "j < ncols dst"
    "0 \<le> a" "a \<le> b" "b \<le> int (nrows dst)" "0 \<le> c" "c \<le> d" "d \<le> int (ncols dst)"
  shows "elems (fill_slice2 dst a b c d x) ! i ! j =
     (if nat a \<le> i \<and> i < nat b \<and> nat c \<le> j \<and> j < nat d then x else elems dst ! i ! j)"
  using assms
  by (auto simp: fill_slice2_def Let_def slice_indices_in_range)

lemma fill_all_nth:
  "i < nrows dst \<Longrightarrow> j < ncols dst \<Longrightarrow> elems (fill_all dst x) ! i ! j = x"
  by (simp add: fill_all_def fill_slice2_nth)


section \<open>Cropping subsystem\<close>

text \<open>
  \<^verbatim>\<open>crop_image_to_rect\<close> returns \<^verbatim>\<open>(None, None, None)\<close>, here \<open>Inr None\<close>, or the cropped
  image with the new centre, here \<open>Inr (Some (cropped, new_xc, new_yc))\<close>; \<open>Inl\<close> is an
  exception raised on the way.
\<close>

definition crop_image_to_rect ::
  "('a::zero) image \<Rightarrow> real \<Rightarrow> real \<Rightarrow> real \<Rightarrow> real \<Rightarrow> real \<Rightarrow> real
     \<Rightarrow> py_error + ('a image \<times> real \<times> real) option" where
  "crop_image_to_rect img xc_px yc_px xmin xmax ymin ymax =
     (let v = int (nrows (pixels img));
          h = int (ncols (pixels img));
          xmin_req = py_int xmin;
          xmax_req = py_int xmax;
          ymin_req = py_int ymin;
          ymax_req = py_int ymax;
          crop_height = ymax_req - ymin_req;
          crop_width = xmax_req - xmin_req
      in if crop_height < 3 \<or> crop_width < 3 then Inr None
         else
           let xmin_valid = max 0 xmin_req;
               xmax_valid = min h xmax_req;
               ymin_valid = max 0 ymin_req;
               ymax_valid = min v ymax_req
           in if xmin_valid \<ge> xmax_valid \<or> ymin_valid \<ge> ymax_valid then Inr None
              else
                let cropped = image_slice img ymin_valid ymax_valid xmin_valid xmax_valid;
                    mask0 = full (nat crop_height) (nat crop_width) False;
                    new_xc = xc_px - real_of_int xmin_req;
                    new_yc = yc_px - real_of_int ymin_req
                in if xmin_req < 0 \<or> xmax_req > h \<or> ymin_req < 0 \<or> ymax_req > v
                   then
                     let padded = full (nat crop_height) (nat crop_width) 0;
                         pad_ymin = max 0 (- ymin_req);
                         pad_xmin = max 0 (- xmin_req);
                         pad_ymax = pad_ymin + (ymax_valid - ymin_valid);
                         pad_xmax = pad_xmin + (xmax_valid - xmin_valid)
                     in case set_slice2 padded pad_ymin pad_ymax pad_xmin pad_xmax (pixels cropped) of
                          Inl e \<Rightarrow> Inl e
                        | Inr padded' \<Rightarrow>
                            let mask1 = fill_all mask0 True;
                                mask2 = fill_slice2 mask1 pad_ymin pad_ymax pad_xmin pad_xmax False
                            in Inr (Some (\<lparr>pixels = padded', mask = Some mask2\<rparr>, new_xc, new_yc))
                   else Inr (Some (cropped, new_xc, new_yc)))"

text \<open>
  The pixels a request covers and the pixels an image has, as sets of (row, column)
  pairs; their intersection is the overlap of the request with the image.
\<close>

definition request_pixels :: "int \<Rightarrow> int \<Rightarrow> int \<Rightarrow> int \<Rightarrow> (int \<times> int) set" where
  "request_pixels xmin xmax ymin ymax = {(r, c). ymin \<le> r \<and> r < ymax \<and> xmin \<le> c \<and> c < xmax}"

definition image_pixels :: "'a image \<Rightarrow> (int \<times> int) set" where
  "image_pixels img =
     {(r, c). 0 \<le> r \<and> r < int (nrows (pixels img)) \<and> 0 \<le> c \<and> c < int (ncols (pixels img))}"

subsection \<open>The branches of the crop\<close>

lemma overlap_empty_iff:
  "(request_pixels xmin xmax ymin ymax \<inter> image_pixels img = {}) =
   (max 0 xmin \<ge> min (int (ncols (pixels img))) xmax \<or> max 0 ymin \<ge> min (int (nrows (pixels img))) ymax)"
proof
  assume e: "request_pixels xmin xmax ymin ymax \<inter> image_pixels img = {}"
  show "max 0 xmin \<ge> min (int (ncols (pixels img))) xmax \<or> max 0 ymin \<ge> min (int (nrows (pixels img))) ymax"
  proof (rule ccontr)
    assume "\<not> ?thesis"
    then have "(max 0 ymin, max 0 xmin) \<in> request_pixels xmin xmax ymin ymax \<inter> image_pixels img"
      by (auto simp: request_pixels_def image_pixels_def)
    with e show False by simp
  qed
next
  assume "max 0 xmin \<ge> min (int (ncols (pixels img))) xmax \<or> max 0 ymin \<ge> min (int (nrows (pixels img))) ymax"
  then show "request_pixels xmin xmax ymin ymax \<inter> image_pixels img = {}"
    by (auto simp: request_pixels_def image_pixels_def)
qed

lemma crop_too_small:
  "py_int ymax - py_int ymin < 3 \<or> py_int xmax - py_int xmin < 3 \<Longrightarrow>
   crop_image_to_rect img xc yc xmin xmax ymin ymax = Inr None"
  by (simp add: crop_image_to_rect_def Let_def)

lemma crop_no_overlap:
  "max 0 (py_int xmin) \<ge> min (int (ncols (pixels img))) (py_int xmax)
     \<or> max 0 (py_int ymin) \<ge> min (int (nrows (pixels img))) (py_int ymax) \<Longrightarrow>
   crop_image_to_rect img xc yc xmin xmax ymin ymax = Inr None"
  by (simp add: crop_image_to_rect_def Let_def)

lemma crop_inside:
  assumes "3 \<le> py_int ymax - py_int ymin" "3 \<le> py_int xmax - py_int xmin"
    "0 \<le> py_int xmin" "py_int xmax \<le> int (ncols (pixels img))"
    "0 \<le> py_int ymin" "py_int ymax \<le> int (nrows (pixels img))"
  shows "crop_image_to_rect img xc yc xmin xmax ymin ymax =
     Inr (Some (image_slice img (py_int ymin) (py_int ymax) (py_int xmin) (py_int xmax),
                xc - real_of_int (py_int xmin), yc - real_of_int (py_int ymin)))"
  using assms by (simp add: crop_image_to_rect_def Let_def max_def min_def)

text \<open>The padded branch: the assignment of the valid part never fails.\<close>

lemma crop_padded:
  fixes img :: "('a::zero) image" and xmin xmax ymin ymax :: real
  defines "v \<equiv> int (nrows (pixels img))" and "h \<equiv> int (ncols (pixels img))"
  defines "x0 \<equiv> py_int xmin" and "x1 \<equiv> py_int xmax" and "y0 \<equiv> py_int ymin" and "y1 \<equiv> py_int ymax"
  assumes big: "3 \<le> y1 - y0" "3 \<le> x1 - x0"
    and ov: "max 0 x0 < min h x1" "max 0 y0 < min v y1"
    and out: "x0 < 0 \<or> x1 > h \<or> y0 < 0 \<or> y1 > v"
  shows "\<exists>padded'.
     set_slice2 (full (nat (y1 - y0)) (nat (x1 - x0)) 0)
        (max 0 (- y0)) (max 0 (- y0) + (min v y1 - max 0 y0))
        (max 0 (- x0)) (max 0 (- x0) + (min h x1 - max 0 x0))
        (slice2 (pixels img) (max 0 y0) (min v y1) (max 0 x0) (min h x1)) = Inr padded'
     \<and> crop_image_to_rect img xc yc xmin xmax ymin ymax =
        Inr (Some (\<lparr>pixels = padded',
                    mask = Some (fill_slice2 (fill_all (full (nat (y1 - y0)) (nat (x1 - x0)) False) True)
                       (max 0 (- y0)) (max 0 (- y0) + (min v y1 - max 0 y0))
                       (max 0 (- x0)) (max 0 (- x0) + (min h x1 - max 0 x0)) False)\<rparr>,
                   xc - real_of_int x0, yc - real_of_int y0))"
proof -
  let ?src = "slice2 (pixels img) (max 0 y0) (min v y1) (max 0 x0) (min h x1)"
  let ?dst = "full (nat (y1 - y0)) (nat (x1 - x0)) (0::'a)"
  have sh: "nrows ?src = nat (min v y1 - max 0 y0)" "ncols ?src = nat (min h x1 - max 0 x0)"
    using ov slice2_shape [of "max 0 y0" "min v y1" "pixels img" "max 0 x0" "min h x1"]
    by (simp_all add: v_def h_def)
  have dsh: "nrows ?dst = nat (y1 - y0)" "ncols ?dst = nat (x1 - x0)"
    by (simp_all add: full_def)
  have r: "slice_indices (nat (y1 - y0)) (max 0 (- y0)) (max 0 (- y0) + (min v y1 - max 0 y0))
        = (nat (max 0 (- y0)), nat (min v y1 - max 0 y0))"
    using ov big by (subst slice_indices_in_range) auto
  have c: "slice_indices (nat (x1 - x0)) (max 0 (- x0)) (max 0 (- x0) + (min h x1 - max 0 x0))
        = (nat (max 0 (- x0)), nat (min h x1 - max 0 x0))"
    using ov big by (subst slice_indices_in_range) auto
  obtain padded' where p: "set_slice2 ?dst
        (max 0 (- y0)) (max 0 (- y0) + (min v y1 - max 0 y0))
        (max 0 (- x0)) (max 0 (- x0) + (min h x1 - max 0 x0)) ?src = Inr padded'"
    unfolding set_slice2_def Let_def dsh r c sh by simp
  have "crop_image_to_rect img xc yc xmin xmax ymin ymax =
        Inr (Some (\<lparr>pixels = padded',
                    mask = Some (fill_slice2 (fill_all (full (nat (y1 - y0)) (nat (x1 - x0)) False) True)
                       (max 0 (- y0)) (max 0 (- y0) + (min v y1 - max 0 y0))
                       (max 0 (- x0)) (max 0 (- x0) + (min h x1 - max 0 x0)) False)\<rparr>,
                   xc - real_of_int x0, yc - real_of_int y0))"
    using big ov out p
    unfolding crop_image_to_rect_def Let_def image_slice_def v_def h_def x0_def x1_def y0_def y1_def
    by (simp add: not_less [symmetric] del: not_less)
  with p show ?thesis by blast
qed


lemma pad_index:
  fixes lo hi n :: int and i :: nat
  assumes "3 \<le> hi - lo" "max 0 lo < min n hi" "i < nat (hi - lo)"
  shows "(nat (max 0 (- lo)) \<le> i \<and> i < nat (max 0 (- lo) + (min n hi - max 0 lo)))
           = (0 \<le> lo + int i \<and> lo + int i < n)"
    and "0 \<le> lo + int i \<Longrightarrow> lo + int i < n \<Longrightarrow>
           nat (max 0 lo) + (i - nat (max 0 (- lo))) = nat (lo + int i)"
    and "0 \<le> lo + int i \<Longrightarrow> lo + int i < n \<Longrightarrow>
           i - nat (max 0 (- lo)) < nat (min n hi - max 0 lo)"
    and "0 \<le> max 0 (- lo)"
    and "max 0 (- lo) \<le> max 0 (- lo) + (min n hi - max 0 lo)"
    and "max 0 (- lo) + (min n hi - max 0 lo) \<le> int (nat (hi - lo))"
    and "nat (max 0 (- lo) + (min n hi - max 0 lo) - max 0 (- lo)) = nat (min n hi - max 0 lo)"
  using assms by (auto simp: max_def min_def split: if_splits)

text \<open>A small unmasked image used to run the crop on concrete requests.\<close>

definition sample_image :: "int image" where
  "sample_image = \<lparr>pixels = \<lparr>nrows = 3, ncols = 3, elems = [[1, 2, 3], [4, 5, 6], [7, 8, 9]]\<rparr>,
                    mask = None\<rparr>"

lemma wf_sample_image: "wf_image sample_image"
  by (simp add: sample_image_def wf_image_def wf_ndarray_def)

lemma py_int_of_int [simp]: "py_int (real_of_int k) = k"
  by (simp add: py_int_def)

lemma py_int_numeral [simp]: "py_int (numeral n) = numeral n" "py_int (- numeral n) = - numeral n"
  "py_int 0 = 0" "py_int 1 = 1"
  by (simp_all add: py_int_def)

lemma py_int_minus_one [simp]: "py_int (- 1) = - 1"
  using py_int_of_int [of "- 1"] by simp

lemma sample_overlap:
  "request_pixels (- 1) 2 1 4 \<inter> image_pixels sample_image \<noteq> {}"
proof -
  have "(1, 0) \<in> request_pixels (- 1) 2 1 4 \<inter> image_pixels sample_image"
    by (simp add: request_pixels_def image_pixels_def sample_image_def)
  then show ?thesis by blast
qed

section \<open>Sampling values along a line\<close>

text \<open>\<^verbatim>\<open>round(x)\<close> on a float rounds to the nearest integer, a tie to the even one.\<close>

definition py_round :: "real \<Rightarrow> int" where
  "py_round x =
     (let f = \<lfloor>x\<rfloor>; d = x - real_of_int f
      in if d < 1 / 2 then f else if 1 / 2 < d then f + 1 else if even f then f else f + 1)"

text \<open>\<^verbatim>\<open>np.linspace(0, 1, n)\<close>.\<close>

definition linspace01 :: "nat \<Rightarrow> real list" where
  "linspace01 n = map (\<lambda>i. if n = 1 then 0 else real i / real (n - 1)) [0..<n]"

text \<open>
  \<^verbatim>\<open>arr[b]\<close> for a boolean array \<open>b\<close> keeps the entries of \<open>arr\<close> where \<open>b\<close> is true; numpy
  raises \<^verbatim>\<open>IndexError\<close> when the lengths differ.
\<close>

definition compress :: "bool list \<Rightarrow> 'a list \<Rightarrow> 'a list" where
  "compress bs xs = map fst (filter snd (zip xs bs))"

definition bool_index :: "'a list \<Rightarrow> bool list \<Rightarrow> py_error + 'a list" where
  "bool_index xs bs =
     (if length bs = length xs then Inr (compress bs xs)
      else Inl (IndexError ''boolean index did not match indexed array''))"

text \<open>
  \<^verbatim>\<open>(rr >= 0) & (rr < height) & (cc >= 0) & (cc < width)\<close>, elementwise, with numpy's
  broadcasting of a one-element operand; other unequal lengths raise \<^verbatim>\<open>ValueError\<close>.
\<close>

definition in_bounds :: "int \<Rightarrow> int \<Rightarrow> int \<Rightarrow> int \<Rightarrow> bool" where
  "in_bounds height width r c = (r \<ge> 0 \<and> r < height \<and> c \<ge> 0 \<and> c < width)"

definition valid_bounds_of :: "int \<Rightarrow> int \<Rightarrow> int list \<Rightarrow> int list \<Rightarrow> py_error + bool list" where
  "valid_bounds_of height width rr cc =
     (if length rr = length cc \<or> length rr = 1 \<or> length cc = 1
      then Inr (map (\<lambda>k. in_bounds height width
                         (rr ! (if length rr = 1 then 0 else k))
                         (cc ! (if length cc = 1 then 0 else k)))
                    [0..<max (length rr) (length cc)])
      else Inl (ValueError ''operands could not be broadcast together''))"

text \<open>
  \<^verbatim>\<open>arr[rr, cc]\<close> with integer index arrays: an index below zero counts from the end, and
  an index outside \<open>[-n, n)\<close> raises \<^verbatim>\<open>IndexError\<close>.
\<close>

definition fancy_get :: "'a ndarray \<Rightarrow> int list \<Rightarrow> int list \<Rightarrow> py_error + 'a list" where
  "fancy_get arr rr cc =
     (let v = int (nrows arr); h = int (ncols arr)
      in if length rr \<noteq> length cc then Inl (IndexError ''shape mismatch'')
         else if list_all (\<lambda>r. - v \<le> r \<and> r < v) rr \<and> list_all (\<lambda>c. - h \<le> c \<and> c < h) cc
         then Inr (map (\<lambda>(r, c). elems arr ! nat (if r < 0 then r + v else r)
                                            ! nat (if c < 0 then c + h else c)) (zip rr cc))
         else Inl (IndexError ''index is out of bounds''))"

text \<open>
  \<^verbatim>\<open>values_along_line(image, x0, y0, x1, y1)\<close> returns the four arrays \<open>(x, y, z, s)\<close>.
  The conversions \<^verbatim>\<open>astype(float)\<close> keep the values; the pixel values \<open>z\<close> stay in the
  pixel type.
\<close>

definition values_along_line ::
  "'a image \<Rightarrow> real \<Rightarrow> real \<Rightarrow> real \<Rightarrow> real
     \<Rightarrow> py_error + (real list \<times> real list \<times> 'a list \<times> real list)" where
  "values_along_line img x0 y0 x1 y1 =
     (let height = int (nrows (pixels img));
          width = int (ncols (pixels img));
          rc = line (py_round y0) (py_round x0) (py_round y1) (py_round x1);
          rr_full = fst rc;
          cc_full = snd rc;
          total_distance = sqrt ((x1 - x0)\<^sup>2 + (y1 - y0)\<^sup>2);
          d_full = (if total_distance > 0
                    then map (\<lambda>s. (s - 1 / 2) * total_distance) (linspace01 (length rr_full))
                    else replicate (length rr_full) 0)
      in case valid_bounds_of height width rr_full cc_full of
           Inl e \<Rightarrow> Inl e
         | Inr valid_bounds \<Rightarrow>
        (case bool_index rr_full valid_bounds of
           Inl e \<Rightarrow> Inl e
         | Inr rr \<Rightarrow>
        (case bool_index cc_full valid_bounds of
           Inl e \<Rightarrow> Inl e
         | Inr cc \<Rightarrow>
        (case bool_index d_full valid_bounds of
           Inl e \<Rightarrow> Inl e
         | Inr d \<Rightarrow>
        (case fancy_get (pixels img) rr cc of
           Inl e \<Rightarrow> Inl e
         | Inr z \<Rightarrow>
        (case mask img of
           None \<Rightarrow> Inr (map real_of_int cc, map real_of_int rr, z, d)
         | Some m \<Rightarrow>
        (case fancy_get m rr cc of
           Inl e \<Rightarrow> Inl e
         | Inr zmask \<Rightarrow>
             if True \<in> set zmask
             then
               let valid = map Not zmask
               in (case bool_index cc valid of
                     Inl e \<Rightarrow> Inl e
                   | Inr cc' \<Rightarrow>
                  (case bool_index rr valid of
                     Inl e \<Rightarrow> Inl e
                   | Inr rr' \<Rightarrow>
                  (case bool_index d valid of
                     Inl e \<Rightarrow> Inl e
                   | Inr d' \<Rightarrow>
                  (case bool_index z valid of
                     Inl e \<Rightarrow> Inl e
                   | Inr z' \<Rightarrow>
                       Inr (map real_of_int cc', map real_of_int rr', z', d')))))
             else Inr (map real_of_int cc, map real_of_int rr, z, d))))))))"


lemma compress_Nil [simp]: "compress [] xs = []" "compress bs [] = []"
  by (simp_all add: compress_def)

lemma compress_Cons [simp]:
  "compress (b # bs) (x # xs) = (if b then x # compress bs xs else compress bs xs)"
  by (simp add: compress_def)

lemma length_compress:
  "length xs = length bs \<Longrightarrow> length (compress bs xs) = length (filter (\<lambda>b. b) bs)"
  by (induction xs bs rule: list_induct2) simp_all

lemma set_compress_subset: "set (compress bs xs) \<subseteq> set xs"
  by (auto simp: compress_def dest: set_zip_leftD)

lemma compress_nth:
  "length xs = length bs \<Longrightarrow> x \<in> set (compress bs xs) \<Longrightarrow> \<exists>k<length xs. xs ! k = x \<and> bs ! k"
  by (auto simp: compress_def in_set_zip)

lemma compress_all_False:
  "list_all (\<lambda>b. \<not> b) bs \<Longrightarrow> compress bs xs = []"
  by (induction bs arbitrary: xs) (case_tac xs; simp)+

lemma bool_index_ok: "length bs = length xs \<Longrightarrow> bool_index xs bs = Inr (compress bs xs)"
  by (simp add: bool_index_def)

lemma valid_bounds_of_ok:
  assumes "length rr = length cc"
  shows "valid_bounds_of height width rr cc
           = Inr (map (\<lambda>k. in_bounds height width (rr ! k) (cc ! k)) [0..<length rr])"
proof -
  have "map (\<lambda>k. in_bounds height width
                         (rr ! (if length rr = 1 then 0 else k))
                         (cc ! (if length cc = 1 then 0 else k)))
                    [0..<max (length rr) (length cc)]
        = map (\<lambda>k. in_bounds height width (rr ! k) (cc ! k)) [0..<length rr]"
    using assms by (intro map_cong) auto
  then show ?thesis using assms by (simp add: valid_bounds_of_def)
qed

lemma fancy_get_ok:
  assumes "length rr = length cc"
    "list_all (\<lambda>r. 0 \<le> r \<and> r < int (nrows arr)) rr"
    "list_all (\<lambda>c. 0 \<le> c \<and> c < int (ncols arr)) cc"
  shows "\<exists>z. fancy_get arr rr cc = Inr z \<and> length z = length rr"
proof -
  have "list_all (\<lambda>r. - int (nrows arr) \<le> r \<and> r < int (nrows arr)) rr"
    using assms(2) by (auto simp: list_all_iff)
  moreover have "list_all (\<lambda>c. - int (ncols arr) \<le> c \<and> c < int (ncols arr)) cc"
    using assms(3) by (auto simp: list_all_iff)
  ultimately show ?thesis using assms(1) by (simp add: fancy_get_def Let_def)
qed

subsection \<open>What the sampling computes on a well-formed image\<close>

lemma values_along_line_core:
  fixes img :: "'a image" and x0 y0 x1 y1 :: real
  assumes wf: "wf_image img"
  shows "\<exists>rr cc z d.
      values_along_line img x0 y0 x1 y1 = Inr (map real_of_int cc, map real_of_int rr, z, d)
    \<and> length cc = length rr \<and> length z = length rr \<and> length d = length rr
    \<and> list_all (\<lambda>r. 0 \<le> r \<and> r < int (nrows (pixels img))) rr
    \<and> list_all (\<lambda>c. 0 \<le> c \<and> c < int (ncols (pixels img))) cc
    \<and> (list_all (\<lambda>(r, c). \<not> in_bounds (int (nrows (pixels img))) (int (ncols (pixels img))) r c)
          (line_points (line (py_round y0) (py_round x0) (py_round y1) (py_round x1)))
        \<longrightarrow> rr = [])"
proof -
  let ?H = "int (nrows (pixels img))" and ?W = "int (ncols (pixels img))"
  let ?rc = "line (py_round y0) (py_round x0) (py_round y1) (py_round x1)"
  let ?rr_full = "fst ?rc" and ?cc_full = "snd ?rc"
  let ?td = "sqrt ((x1 - x0)\<^sup>2 + (y1 - y0)\<^sup>2)"
  let ?d_full = "if ?td > 0
                 then map (\<lambda>s. (s - 1 / 2) * ?td) (linspace01 (length ?rr_full))
                 else replicate (length ?rr_full) 0"
  define vb where "vb = map (\<lambda>k. in_bounds ?H ?W (?rr_full ! k) (?cc_full ! k)) [0..<length ?rr_full]"
  define rr where "rr = compress vb ?rr_full"
  define cc where "cc = compress vb ?cc_full"
  define d where "d = compress vb ?d_full"
  have len: "length ?cc_full = length ?rr_full"
    by (simp add: line_lengths_agree)
  have lend: "length ?d_full = length ?rr_full"
    by (simp add: linspace01_def)
  have lenvb: "length vb = length ?rr_full"
    by (simp add: vb_def)
  have e1: "valid_bounds_of ?H ?W ?rr_full ?cc_full = Inr vb"
    using valid_bounds_of_ok [of ?rr_full ?cc_full ?H ?W] len by (simp add: vb_def)
  have e2: "bool_index ?rr_full vb = Inr rr"
    using lenvb by (simp add: bool_index_ok rr_def)
  have e3: "bool_index ?cc_full vb = Inr cc"
    using lenvb len by (simp add: bool_index_ok cc_def)
  have e4: "bool_index ?d_full vb = Inr d"
    unfolding d_def by (rule bool_index_ok) (simp only: lenvb lend)
  have lens: "length cc = length rr" "length d = length rr"
    using len lend lenvb by (simp_all only: rr_def cc_def d_def length_compress)
  have vbk: "in_bounds ?H ?W (?rr_full ! k) (?cc_full ! k)" if "k < length ?rr_full" "vb ! k" for k
    using that by (simp add: vb_def)
  have inr: "list_all (\<lambda>r. 0 \<le> r \<and> r < ?H) rr"
    unfolding list_all_iff
  proof
    fix r assume "r \<in> set rr"
    then obtain k where "k < length ?rr_full" "?rr_full ! k = r" "vb ! k"
      using compress_nth [of ?rr_full vb r] lenvb by (auto simp: rr_def)
    then show "0 \<le> r \<and> r < ?H"
      using vbk [of k] by (auto simp: in_bounds_def)
  qed
  have inc: "list_all (\<lambda>c. 0 \<le> c \<and> c < ?W) cc"
    unfolding list_all_iff
  proof
    fix c assume "c \<in> set cc"
    then obtain k where "k < length ?cc_full" "?cc_full ! k = c" "vb ! k"
      using compress_nth [of ?cc_full vb c] lenvb len by (auto simp: cc_def)
    then show "0 \<le> c \<and> c < ?W"
      using vbk [of k] len by (auto simp: in_bounds_def)
  qed
  have empty: "rr = []"
    if out: "list_all (\<lambda>(r, c). \<not> in_bounds ?H ?W r c) (line_points ?rc)"
  proof -
    have "\<not> vb ! k" if k: "k < length vb" for k
    proof -
      have "(?rr_full ! k, ?cc_full ! k) \<in> set (line_points ?rc)"
        using k lenvb len by (auto simp: line_points_def in_set_zip)
      then have "\<not> in_bounds ?H ?W (?rr_full ! k) (?cc_full ! k)"
        using out by (auto simp: list_all_iff)
      then show ?thesis using k lenvb by (simp add: vb_def)
    qed
    then have "list_all (\<lambda>b. \<not> b) vb" by (simp add: list_all_length)
    then show ?thesis unfolding rr_def by (rule compress_all_False)
  qed
  obtain z where z: "fancy_get (pixels img) rr cc = Inr z" "length z = length rr"
    using fancy_get_ok [OF lens(1) [symmetric] inr inc] by blast
  have head: "values_along_line img x0 y0 x1 y1 =
     (case mask img of
           None \<Rightarrow> Inr (map real_of_int cc, map real_of_int rr, z, d)
         | Some m \<Rightarrow>
        (case fancy_get m rr cc of
           Inl e \<Rightarrow> Inl e
         | Inr zmask \<Rightarrow>
             if True \<in> set zmask
             then
               (case bool_index cc (map Not zmask) of
                     Inl e \<Rightarrow> Inl e
                   | Inr cc' \<Rightarrow>
                  (case bool_index rr (map Not zmask) of
                     Inl e \<Rightarrow> Inl e
                   | Inr rr' \<Rightarrow>
                  (case bool_index d (map Not zmask) of
                     Inl e \<Rightarrow> Inl e
                   | Inr d' \<Rightarrow>
                  (case bool_index z (map Not zmask) of
                     Inl e \<Rightarrow> Inl e
                   | Inr z' \<Rightarrow>
                       Inr (map real_of_int cc', map real_of_int rr', z', d')))))
             else Inr (map real_of_int cc, map real_of_int rr, z, d)))"
    unfolding values_along_line_def Let_def
    by (simp only: e1 e2 e3 e4 z sum.case)
  have plain: "length cc = length rr \<and> length z = length rr \<and> length d = length rr
      \<and> list_all (\<lambda>r. 0 \<le> r \<and> r < ?H) rr \<and> list_all (\<lambda>c. 0 \<le> c \<and> c < ?W) cc
      \<and> (list_all (\<lambda>(r, c). \<not> in_bounds ?H ?W r c) (line_points ?rc) \<longrightarrow> rr = [])"
    using lens z(2) inr inc empty by blast
  show ?thesis
  proof (cases "mask img")
    case None
    then have "values_along_line img x0 y0 x1 y1 = Inr (map real_of_int cc, map real_of_int rr, z, d)"
      using head by simp
    with plain show ?thesis by blast
  next
    case (Some m)
    then have msh: "nrows m = nrows (pixels img)" "ncols m = ncols (pixels img)"
      using wf by (simp_all add: wf_image_def)
    obtain zmask where zm: "fancy_get m rr cc = Inr zmask" "length zmask = length rr"
      using fancy_get_ok [of rr cc m] lens(1) inr inc msh by auto
    show ?thesis
    proof (cases "True \<in> set zmask")
      case False
      then have "values_along_line img x0 y0 x1 y1 = Inr (map real_of_int cc, map real_of_int rr, z, d)"
        using head Some zm by simp
      with plain show ?thesis by blast
    next
      case True
      define valid where "valid = map Not zmask"
      have lv: "length valid = length rr" by (simp add: valid_def zm)
      have bi: "bool_index cc valid = Inr (compress valid cc)"
        "bool_index rr valid = Inr (compress valid rr)"
        "bool_index d valid = Inr (compress valid d)"
        "bool_index z valid = Inr (compress valid z)"
        using lv lens z(2) by (simp_all add: bool_index_ok)
      have "values_along_line img x0 y0 x1 y1 =
          Inr (map real_of_int (compress valid cc), map real_of_int (compress valid rr),
               compress valid z, compress valid d)"
        using True bi unfolding head Some valid_def by (simp add: zm(1))
      moreover have "length (compress valid cc) = length (compress valid rr)"
        "length (compress valid z) = length (compress valid rr)"
        "length (compress valid d) = length (compress valid rr)"
        using lv lens z(2) by (simp_all add: length_compress)
      moreover have "list_all (\<lambda>r. 0 \<le> r \<and> r < ?H) (compress valid rr)"
        using inr set_compress_subset [of valid rr] by (auto simp: list_all_iff)
      moreover have "list_all (\<lambda>c. 0 \<le> c \<and> c < ?W) (compress valid cc)"
        using inc set_compress_subset [of valid cc] by (auto simp: list_all_iff)
      moreover have "list_all (\<lambda>(r, c). \<not> in_bounds ?H ?W r c) (line_points ?rc)
          \<longrightarrow> compress valid rr = []"
        using empty by auto
      ultimately show ?thesis by blast
    qed
  qed
qed


lemma py_round_of_int [simp]: "py_round (real_of_int k) = k"
  by (simp add: py_round_def Let_def)

lemma py_round_numeral [simp]: "py_round (numeral n) = numeral n" "py_round 0 = 0" "py_round 1 = 1"
  using py_round_of_int [of "numeral n"] py_round_of_int [of 0] py_round_of_int [of 1]
  by simp_all

definition masked_sample_image :: "int image" where
  "masked_sample_image =
     \<lparr>pixels = \<lparr>nrows = 3, ncols = 3, elems = [[1, 2, 3], [4, 5, 6], [7, 8, 9]]\<rparr>,
      mask = Some \<lparr>nrows = 3, ncols = 3,
                    elems = [[False, True, False], [False, False, False], [False, False, False]]\<rparr>\<rparr>"

lemma wf_masked_sample_image: "wf_image masked_sample_image"
  by (simp add: masked_sample_image_def wf_image_def wf_ndarray_def)

lemma line_row0: "line 0 0 0 2 = ([0, 0, 0], [0, 1, 2])"
  by code_simp

lemma line_outside: "line 5 5 5 7 = ([5, 5, 5], [5, 6, 7])"
  by code_simp

lemma values_along_masked_row:
  "values_along_line masked_sample_image 0 0 2 0 = Inr ([0, 2], [0, 0], [1, 3], [- 1, 1])"
  apply (simp add: values_along_line_def line_row0 Let_def linspace01_def valid_bounds_of_def
      in_bounds_def bool_index_def fancy_get_def masked_sample_image_def upt_rec)
  done

section \<open>Geometry kernel: rotation\<close>

text \<open>
  \<^verbatim>\<open>rotate_points(x, y, x0, y0, phi)\<close> for one point; on arrays numpy applies it to each
  pair of entries.
\<close>

definition rotate_points :: "real \<Rightarrow> real \<Rightarrow> real \<Rightarrow> real \<Rightarrow> real \<Rightarrow> real \<times> real" where
  "rotate_points x y x0 y0 phi =
     (let xp = x - x0;
          yp = y - y0;
          s = sin (- phi);
          c = cos (- phi);
          xf = xp * c - yp * s;
          yf = xp * s + yp * c
      in (xf + x0, yf + y0))"

text \<open>
  \<^verbatim>\<open>rotate_image(original, x0, y0, phi)\<close>.  The rotation itself is
  \<^verbatim>\<open>scipy.ndimage.rotate(original, np.degrees(phi), order=1)\<close>, a routine of an external
  library (spline interpolation in floating point); it is the parameter
  \<open>ndimage_rotate\<close>, given the image and the angle in degrees.  Everything after that
  call, the offsets, the two slices and the assignment into the zero array, is the
  source's own code and is modelled as written.  \<open>None\<close> for \<open>phi\<close> is Python's \<^verbatim>\<open>None\<close>.
\<close>

definition rotate_image ::
  "(('a::zero) ndarray \<Rightarrow> real \<Rightarrow> 'a ndarray) \<Rightarrow> 'a ndarray \<Rightarrow> real \<Rightarrow> real \<Rightarrow> real option
     \<Rightarrow> py_error + 'a ndarray" where
  "rotate_image ndimage_rotate original x0 y0 phi =
     (case phi of
        None \<Rightarrow> Inr original
      | Some p \<Rightarrow>
          let cy = (real (nrows original) - 1) / 2;
              cx = (real (ncols original) - 1) / 2;
              rotated = ndimage_rotate original (p * 180 / pi);
              ry = (real (nrows rotated) - 1) / 2;
              rx = (real (ncols rotated) - 1) / 2;
              new0 = rotate_points x0 y0 cx cy p;
              new_x0 = fst new0 + (rx - cx);
              new_y0 = snd new0 + (ry - cy);
              voff = py_int (new_y0 - y0);
              hoff = py_int (new_x0 - x0);
              ov = int (nrows original);
              oh = int (ncols original);
              rv = int (nrows rotated);
              rh = int (ncols rotated);
              rv1 = max voff 0;
              sv1 = max (- voff) 0;
              vlen = min (voff + ov) rv - rv1;
              rh1 = max hoff 0;
              sh1 = max (- hoff) 0;
              hlen = min (hoff + oh) rh - rh1;
              s = full (nrows original) (ncols original) 0;
              sv1_end = sv1 + vlen;
              sh1_end = sh1 + hlen;
              rv1_end = rv1 + vlen;
              rh1_end = rh1 + hlen
          in set_slice2 s sv1 sv1_end sh1 sh1_end (slice2 rotated rv1 rv1_end rh1 rh1_end))"

text \<open>
  By a half turn \<^verbatim>\<open>scipy.ndimage.rotate\<close> returns an array of the shape of its input
  (its output shape is the bounding box of the rotated input plane), the rows and the
  columns in reverse order.
\<close>

definition half_turn :: "'a ndarray \<Rightarrow> 'a ndarray" where
  "half_turn a = a\<lparr>elems := rev (map rev (elems a))\<rparr>"

lemma rotate_image_None: "rotate_image nd original x0 y0 None = Inr original"
  by (simp add: rotate_image_def)

lemma rotate_image_shape:
  "rotate_image nd original x0 y0 phi = Inr res \<Longrightarrow>
   nrows res = nrows original \<and> ncols res = ncols original"
  by (cases phi) (auto simp: rotate_image_def Let_def full_def dest!: set_slice2_shape)

text \<open>
  A centre just below the last row of a 4 by 4 image, turned by \<open>pi\<close>: whatever the
  rotation routine returns, as long as it has the shape of its input (as a half turn
  has), the lengths of the two slices differ and the assignment raises.
\<close>

lemma rotate_image_raises_below_last_row:
  fixes original :: "('a::zero) ndarray"
  assumes "nrows original = 4" "ncols original = 4"
    and "nrows (nd original 180) = 4" "ncols (nd original 180) = 4"
  shows "rotate_image nd original (3 / 2) (17 / 4) (Some pi)
           = Inl (ValueError ''could not broadcast input array'')"
  using assms
  apply (simp add: rotate_image_def Let_def rotate_points_def full_def)
  apply (simp add: py_int_def set_slice2_def slice2_def slice_indices_def Let_def)
  done

section \<open>The integration rectangle\<close>

text \<open>Python's \<^verbatim>\<open>min\<close> and \<^verbatim>\<open>max\<close> of a sequence raise \<^verbatim>\<open>ValueError\<close> on an empty one.\<close>

fun py_min :: "real list \<Rightarrow> py_error + real" where
  "py_min [] = Inl (ValueError ''min() arg is an empty sequence'')"
| "py_min (x # xs) = Inr (fold min xs x)"

fun py_max :: "real list \<Rightarrow> py_error + real" where
  "py_max [] = Inl (ValueError ''max() arg is an empty sequence'')"
| "py_max (x # xs) = Inr (fold max xs x)"

text \<open>
  \<^verbatim>\<open>rotated_rect_arrays\<close>: the five corner points (the first repeated) of the rectangle,
  rotated about the centre; the result is the array of the x values and the array of
  the y values.
\<close>

definition rotated_rect_arrays ::
  "real \<Rightarrow> real \<Rightarrow> real \<Rightarrow> real \<Rightarrow> real \<Rightarrow> real list \<times> real list" where
  "rotated_rect_arrays xc_px yc_px d_major d_minor phi =
     (let rx = d_major / 2;
          ry = d_minor / 2;
          x = map (\<lambda>t. t + xc_px) [- rx, - rx, rx, rx, - rx];
          y = map (\<lambda>t. t + yc_px) [- ry, ry, ry, - ry, - ry];
          rot = map (\<lambda>(a, b). rotate_points a b xc_px yc_px phi) (zip x y)
      in (map fst rot, map snd rot))"

text \<open>
  \<^verbatim>\<open>crop_image_to_integration_rect\<close>.  The diameters and the angle may be \<^verbatim>\<open>None\<close>
  (an undefined fit); arithmetic on \<^verbatim>\<open>None\<close> raises \<^verbatim>\<open>TypeError\<close>.
\<close>

definition crop_image_to_integration_rect ::
  "('a::zero) image \<Rightarrow> real \<Rightarrow> real \<Rightarrow> real option \<Rightarrow> real option \<Rightarrow> real option \<Rightarrow> real
     \<Rightarrow> py_error + ('a image \<times> real \<times> real) option" where
  "crop_image_to_integration_rect img xc_px yc_px d_major d_minor phi mask_diameters =
     (case d_minor of
        None \<Rightarrow> Inr (Some (img, xc_px, yc_px))
      | Some dminor \<Rightarrow>
     (case d_major of
        None \<Rightarrow> Inl (TypeError ''unsupported operand type(s) for *'')
      | Some dmajor \<Rightarrow>
          let rect_major = mask_diameters * dmajor;
              rect_minor = mask_diameters * dminor
          in (case phi of
                None \<Rightarrow> Inl (TypeError ''bad operand type for unary -'')
              | Some p \<Rightarrow>
                  let xy = rotated_rect_arrays xc_px yc_px rect_major rect_minor p;
                      xp = fst xy;
                      yp = snd xy
                  in (case py_min xp of Inl e \<Rightarrow> Inl e | Inr xmin \<Rightarrow>
                     (case py_max xp of Inl e \<Rightarrow> Inl e | Inr xmax \<Rightarrow>
                     (case py_min yp of Inl e \<Rightarrow> Inl e | Inr ymin \<Rightarrow>
                     (case py_max yp of Inl e \<Rightarrow> Inl e | Inr ymax \<Rightarrow>
                        crop_image_to_rect img xc_px yc_px xmin xmax ymin ymax)))))))"

lemma crop_integration_rect_example:
  "crop_image_to_integration_rect sample_image 1 1 (Some 1) (Some 1) (Some 0) 3
     = crop_image_to_rect sample_image 1 1 (- 1 / 2) (5 / 2) (- 1 / 2) (5 / 2)"
  by (simp add: crop_image_to_integration_rect_def rotated_rect_arrays_def rotate_points_def Let_def)

section \<open>Test images\<close>

text \<open>
  The arguments \<^verbatim>\<open>h\<close> and \<^verbatim>\<open>v\<close> of \<^verbatim>\<open>create_test_image\<close> are tested with
  \<^verbatim>\<open>isinstance(h, int)\<close>, so the model keeps whether a number is a Python int or a float.
\<close>

datatype py_number = PyInt int | PyFloat real

fun isinstance_int :: "py_number \<Rightarrow> bool" where
  "isinstance_int (PyInt k) = True"
| "isinstance_int (PyFloat x) = False"

fun num_value :: "py_number \<Rightarrow> real" where
  "num_value (PyInt k) = real_of_int k"
| "num_value (PyFloat x) = x"

definition map_array :: "('a \<Rightarrow> 'b) \<Rightarrow> 'a ndarray \<Rightarrow> 'b ndarray" where
  "map_array f a = \<lparr>nrows = nrows a, ncols = ncols a, elems = map (map f) (elems a)\<rparr>"

definition add_arrays :: "real ndarray \<Rightarrow> real ndarray \<Rightarrow> py_error + real ndarray" where
  "add_arrays a b =
     (if nrows b = nrows a \<and> ncols b = ncols a
      then Inr (a\<lparr>elems := map (\<lambda>(ra, rb). map (\<lambda>(p, q). p + q) (zip ra rb)) (zip (elems a) (elems b))\<rparr>)
      else Inl (ValueError ''operands could not be broadcast together''))"

definition gaussian_image :: "nat \<Rightarrow> nat \<Rightarrow> real \<Rightarrow> real \<Rightarrow> real \<Rightarrow> real \<Rightarrow> real \<Rightarrow> real ndarray" where
  "gaussian_image v h scale xc_px yc_px rx ry =
     \<lparr>nrows = v, ncols = h,
      elems = map (\<lambda>y. map (\<lambda>x.
                scale * exp (- 2 * (real x - xc_px)\<^sup>2 / rx\<^sup>2 - 2 * (real y - yc_px)\<^sup>2 / ry\<^sup>2))
                [0..<h]) [0..<v]\<rparr>"

text \<open>
  \<^verbatim>\<open>create_test_image\<close>.  The four checks come first, in the source's order.  The draws
  of \<^verbatim>\<open>numpy.random\<close> are the parameter \<open>np_random\<close> (the distribution, the noise level
  and the shape), \<^verbatim>\<open>scipy.ndimage.rotate\<close> is \<open>ndimage_rotate\<close> as in \<open>rotate_image\<close>.
  The conversions \<^verbatim>\<open>astype(np.uint8)\<close> and \<^verbatim>\<open>astype(np.uint16)\<close> truncate; the pixel
  values stay real numbers.
\<close>

definition create_test_image ::
  "(real ndarray \<Rightarrow> real \<Rightarrow> real ndarray) \<Rightarrow> (string \<Rightarrow> real \<Rightarrow> nat \<Rightarrow> nat \<Rightarrow> real ndarray)
     \<Rightarrow> py_number \<Rightarrow> py_number \<Rightarrow> real \<Rightarrow> real \<Rightarrow> real \<Rightarrow> real \<Rightarrow> real option
     \<Rightarrow> real \<Rightarrow> string \<Rightarrow> real \<Rightarrow> py_error + real ndarray" where
  "create_test_image ndimage_rotate np_random h v xc_px yc_px d_major d_minor phi noise ntype max_value =
     (if max_value < 0 \<or> max_value \<ge> 2 ^ 16
      then Inl (ValueError ''max_value must be positive and less than 65535'')
      else if \<not> isinstance_int h \<or> num_value h \<le> 0
      then Inl (ValueError ''number of columns must be positive'')
      else if \<not> isinstance_int v \<or> num_value v \<le> 0
      then Inl (ValueError ''number of rows must be positive'')
      else if (case phi of None \<Rightarrow> False | Some p \<Rightarrow> \<bar>p\<bar> > 21 / 10 * pi)
      then Inl (ValueError ''the angle phi should be in radians!'')
      else
        let rx = d_major / 2;
            ry = d_minor / 2;
            vn = nat \<lfloor>num_value v\<rfloor>;
            hn = nat \<lfloor>num_value h\<rfloor>;
            scale = max_value - 3 * noise;
            image0 = gaussian_image vn hn scale xc_px yc_px rx ry
        in (case rotate_image ndimage_rotate image0 xc_px yc_px phi of
              Inl e \<Rightarrow> Inl e
            | Inr image1 \<Rightarrow>
                let noisy =
                      (if noise > 0
                       then
                         (case (if ntype = ''poisson''
                                then add_arrays image1 (np_random ''poisson'' noise vn hn)
                                else Inr image1) of
                            Inl e \<Rightarrow> Inl e
                          | Inr a \<Rightarrow>
                         (case (if ntype = ''constant''
                                then Inr (map_array (\<lambda>x. x + noise) a)
                                else Inr a) of
                            Inl e \<Rightarrow> Inl e
                          | Inr b \<Rightarrow>
                         (case (if ntype = ''gaussian'' \<or> ntype = ''normal''
                                then add_arrays b (np_random ''normal'' noise vn hn)
                                else Inr b) of
                            Inl e \<Rightarrow> Inl e
                          | Inr c \<Rightarrow>
                         (case (if ntype = ''flat'' \<or> ntype = ''uniform''
                                then add_arrays c (np_random ''uniform'' noise vn hn)
                                else Inr c) of
                            Inl e \<Rightarrow> Inl e
                          | Inr d \<Rightarrow>
                              Inr (map_array (\<lambda>x. if x < 0 then 0 else x)
                                     (map_array (\<lambda>x. if x > max_value then max_value else x) d))))))
                       else Inr image1)
                in (case noisy of
                      Inl e \<Rightarrow> Inl e
                    | Inr image2 \<Rightarrow>
                        if max_value < 2 ^ 8
                        then Inr (map_array (\<lambda>x. real_of_int (py_int x mod 2 ^ 8)) image2)
                        else if max_value < 2 ^ 16
                        then Inr (map_array (\<lambda>x. real_of_int (py_int x mod 2 ^ 16)) image2)
                        else Inr image2)))"

lemma create_test_image_degrees:
  "create_test_image nd rnd (PyInt 5) (PyInt 5) 2 2 3 2 (Some 45) 0 ''poisson'' 255
     = Inl (ValueError ''the angle phi should be in radians!'')"
proof -
  have "21 / 10 * pi < 45" using pi_less_4 by simp
  then show ?thesis by (simp add: create_test_image_def)
qed

lemma create_test_image_float_dimension:
  "create_test_image nd rnd (PyFloat 5) (PyInt 5) 2 2 3 2 None 0 ''poisson'' 255
     = Inl (ValueError ''number of columns must be positive'')"
  by (simp add: create_test_image_def)

lemma create_test_image_max_value:
  "create_test_image nd rnd (PyInt 5) (PyInt 5) 2 2 3 2 None 0 ''poisson'' 65536
     = Inl (ValueError ''max_value must be positive and less than 65535'')"
  by (simp add: create_test_image_def)

section \<open>Claims about the discrete line\<close>

text \<open>
  C3.  For every pair of integer endpoints, \<open>line\<close> returns exactly
  \<open>max(|r1 - r0|, |c1 - c0|) + 1\<close> coordinate pairs (both returned arrays have that
  length), and no (row, col) pair appears twice in the returned sequence.
\<close>

theorem line_count_and_distinct:
  "length (fst (line r0 c0 r1 c1)) = nat (max \<bar>r1 - r0\<bar> \<bar>c1 - c0\<bar>) + 1
   \<and> length (snd (line r0 c0 r1 c1)) = nat (max \<bar>r1 - r0\<bar> \<bar>c1 - c0\<bar>) + 1
   \<and> length (line_points (line r0 c0 r1 c1)) = nat (max \<bar>r1 - r0\<bar> \<bar>c1 - c0\<bar>) + 1
   \<and> distinct (line_points (line r0 c0 r1 c1))"
  by (simp add: line_length_fst line_length_snd line_distinct line_points_length)

text \<open>
  C4.  The set of (row, col) pairs returned for \<open>(r0, c0)\<close> to \<open>(r1, c1)\<close> equals the
  set returned for \<open>(r1, c1)\<close> to \<open>(r0, c0)\<close>.
\<close>

theorem line_reversal_symmetric:
  "set (line_points (line r0 c0 r1 c1)) = set (line_points (line r1 c1 r0 c0))"
  by (simp add: line_swap_endpoints)

section \<open>Claims about cropping\<close>

text \<open>
  C1.  \<open>crop_image_to_rect\<close> returns the sentinel \<^verbatim>\<open>(None, None, None)\<close> if and only
  if the requested rectangle, its bounds truncated to integers, has height below 3 or
  width below 3, or has no pixel in common with the image; and it returns a cropped
  image (never an exception) exactly for the requests of at least 3 by 3 pixels that
  overlap the image.
\<close>

theorem crop_none_iff:
  "(crop_image_to_rect img xc yc xmin xmax ymin ymax = Inr None)
     = (py_int ymax - py_int ymin < 3 \<or> py_int xmax - py_int xmin < 3 \<or>
        request_pixels (py_int xmin) (py_int xmax) (py_int ymin) (py_int ymax) \<inter> image_pixels img = {})
   \<and> (\<exists>cropped new_xc new_yc.
          crop_image_to_rect img xc yc xmin xmax ymin ymax = Inr (Some (cropped, new_xc, new_yc)))
     = (3 \<le> py_int ymax - py_int ymin \<and> 3 \<le> py_int xmax - py_int xmin \<and>
        request_pixels (py_int xmin) (py_int xmax) (py_int ymin) (py_int ymax) \<inter> image_pixels img \<noteq> {})"
proof -
  let ?c = "crop_image_to_rect img xc yc xmin xmax ymin ymax"
  let ?ov = "request_pixels (py_int xmin) (py_int xmax) (py_int ymin) (py_int ymax) \<inter> image_pixels img"
  consider (small) "py_int ymax - py_int ymin < 3 \<or> py_int xmax - py_int xmin < 3"
    | (apart) "3 \<le> py_int ymax - py_int ymin" "3 \<le> py_int xmax - py_int xmin" "?ov = {}"
    | (inside) "3 \<le> py_int ymax - py_int ymin" "3 \<le> py_int xmax - py_int xmin" "?ov \<noteq> {}"
        "0 \<le> py_int xmin" "py_int xmax \<le> int (ncols (pixels img))"
        "0 \<le> py_int ymin" "py_int ymax \<le> int (nrows (pixels img))"
    | (beyond) "3 \<le> py_int ymax - py_int ymin" "3 \<le> py_int xmax - py_int xmin" "?ov \<noteq> {}"
        "py_int xmin < 0 \<or> py_int xmax > int (ncols (pixels img))
          \<or> py_int ymin < 0 \<or> py_int ymax > int (nrows (pixels img))"
    by linarith
  then show ?thesis
  proof cases
    case small
    then have "?c = Inr None" by (rule crop_too_small)
    with small show ?thesis by auto
  next
    case apart
    then have "?c = Inr None"
      using overlap_empty_iff [of "py_int xmin" "py_int xmax" "py_int ymin" "py_int ymax" img]
      by (intro crop_no_overlap) simp
    with apart show ?thesis by auto
  next
    case inside
    then have "\<exists>r. ?c = Inr (Some r)" using crop_inside [of ymax ymin xmax xmin img xc yc] by simp
    with inside show ?thesis by auto
  next
    case beyond
    have ov': "max 0 (py_int xmin) < min (int (ncols (pixels img))) (py_int xmax)"
              "max 0 (py_int ymin) < min (int (nrows (pixels img))) (py_int ymax)"
      using beyond(3) overlap_empty_iff [of "py_int xmin" "py_int xmax" "py_int ymin" "py_int ymax" img]
      by auto
    have "\<exists>r. ?c = Inr (Some r)"
      using crop_padded [OF beyond(1,2) ov' beyond(4), of xc yc] by blast
    with beyond show ?thesis by auto
  qed
qed

text \<open>
  C2.  For a request rectangle (its bounds truncated to integers) of at least 3 by 3
  pixels that overlaps the image and extends beyond it, \<open>crop_image_to_rect\<close> returns
  an array of exactly the requested height and width, with a mask attached.  Every pixel
  of the result that lies outside the source image is zero and masked; every pixel
  inside the source image equals the source pixel at the corresponding location (and is
  not masked); the returned centre is \<open>(xc - xmin, yc - ymin)\<close>, with the truncated
  \<open>xmin\<close> and \<open>ymin\<close>.
\<close>

theorem crop_padded_contents:
  fixes img :: "('a::zero) image" and xmin xmax ymin ymax :: real
  defines "v \<equiv> int (nrows (pixels img))" and "h \<equiv> int (ncols (pixels img))"
  defines "x0 \<equiv> py_int xmin" and "x1 \<equiv> py_int xmax" and "y0 \<equiv> py_int ymin" and "y1 \<equiv> py_int ymax"
  assumes wf: "wf_image img"
    and big: "3 \<le> y1 - y0" "3 \<le> x1 - x0"
    and ov: "request_pixels x0 x1 y0 y1 \<inter> image_pixels img \<noteq> {}"
    and out: "x0 < 0 \<or> x1 > h \<or> y0 < 0 \<or> y1 > v"
  shows "\<exists>res m.
       crop_image_to_rect img xc yc xmin xmax ymin ymax
         = Inr (Some (res, xc - real_of_int x0, yc - real_of_int y0))
     \<and> mask res = Some m \<and> wf_image res
     \<and> nrows (pixels res) = nat (y1 - y0) \<and> ncols (pixels res) = nat (x1 - x0)
     \<and> (\<forall>i j. i < nat (y1 - y0) \<longrightarrow> j < nat (x1 - x0) \<longrightarrow>
           (if (y0 + int i, x0 + int j) \<in> image_pixels img
            then elems (pixels res) ! i ! j = elems (pixels img) ! nat (y0 + int i) ! nat (x0 + int j)
                 \<and> \<not> elems m ! i ! j
            else elems (pixels res) ! i ! j = 0 \<and> elems m ! i ! j))"
proof -
  define py0 where "py0 = max 0 (- y0)"
  define py1 where "py1 = max 0 (- y0) + (min v y1 - max 0 y0)"
  define px0 where "px0 = max 0 (- x0)"
  define px1 where "px1 = max 0 (- x0) + (min h x1 - max 0 x0)"
  define sy0 where "sy0 = max 0 y0"
  define sy1 where "sy1 = min v y1"
  define sx0 where "sx0 = max 0 x0"
  define sx1 where "sx1 = min h x1"
  define H where "H = nat (y1 - y0)"
  define W where "W = nat (x1 - x0)"
  define src where "src = slice2 (pixels img) sy0 sy1 sx0 sx1"
  define m where "m = fill_slice2 (fill_all (full H W False) True) py0 py1 px0 px1 False"
  have ov': "max 0 x0 < min h x1" "max 0 y0 < min v y1"
    using ov overlap_empty_iff [of x0 x1 y0 y1 img] by (auto simp: v_def h_def)
  obtain padded' where p: "set_slice2 (full H W 0) py0 py1 px0 px1 src = Inr padded'"
    and c: "crop_image_to_rect img xc yc xmin xmax ymin ymax =
        Inr (Some (\<lparr>pixels = padded', mask = Some m\<rparr>, xc - real_of_int x0, yc - real_of_int y0))"
    using crop_padded [of ymax ymin xmax xmin img xc yc] big ov' out
    unfolding v_def h_def x0_def x1_def y0_def y1_def py0_def py1_def px0_def px1_def
      sy0_def sy1_def sx0_def sx1_def H_def W_def src_def m_def by blast
  have wfp: "wf_ndarray (pixels img)" using wf by (simp add: wf_image_def)
  have shd: "nrows (full H W (0::'a)) = H" "ncols (full H W (0::'a)) = W"
    by (simp_all add: full_def)
  have shf: "nrows (fill_all (full H W False) True) = H" "ncols (fill_all (full H W False) True) = W"
    by (simp_all add: fill_all_def fill_slice2_shape full_def)
  have shp: "nrows padded' = H" "ncols padded' = W"
    using set_slice2_shape [OF p] shd by simp_all
  have shm: "nrows m = H" "ncols m = W"
    unfolding m_def by (simp_all add: fill_slice2_shape shf)
  have wfm: "wf_ndarray m" unfolding m_def by (rule fill_slice2_wf)
  have wfres: "wf_image \<lparr>pixels = padded', mask = Some m\<rparr>"
    using set_slice2_wf [OF p] shp shm wfm by (simp add: wf_image_def)
  have sb: "0 \<le> sy0" "sy0 \<le> sy1" "sy1 \<le> int (nrows (pixels img))"
           "0 \<le> sx0" "sx0 \<le> sx1" "sx1 \<le> int (ncols (pixels img))"
    using ov' unfolding sy0_def sy1_def sx0_def sx1_def v_def h_def by simp_all
  have ssh: "nrows src = nat (sy1 - sy0)" "ncols src = nat (sx1 - sx0)"
    unfolding src_def using slice2_shape [OF sb] by simp_all
  have px: "(if (y0 + int i, x0 + int j) \<in> image_pixels img
            then elems padded' ! i ! j = elems (pixels img) ! nat (y0 + int i) ! nat (x0 + int j)
                 \<and> \<not> elems m ! i ! j
            else elems padded' ! i ! j = 0 \<and> elems m ! i ! j)"
    if i: "i < H" and j: "j < W" for i j
  proof -
    have i': "i < nat (y1 - y0)" and j': "j < nat (x1 - x0)"
      using i j by (simp_all add: H_def W_def)
    note ry = pad_index [OF big(1) ov'(2) i', folded py0_def py1_def sy0_def sy1_def H_def]
    note rx = pad_index [OF big(2) ov'(1) j', folded px0_def px1_def sx0_def sx1_def W_def]
    have inr: "(nat py0 \<le> i \<and> i < nat py1) = (0 \<le> y0 + int i \<and> y0 + int i < v)"
      by (rule ry(1))
    have inc: "(nat px0 \<le> j \<and> j < nat px1) = (0 \<le> x0 + int j \<and> x0 + int j < h)"
      by (rule rx(1))
    have mem: "((y0 + int i, x0 + int j) \<in> image_pixels img)
         = ((0 \<le> y0 + int i \<and> y0 + int i < v) \<and> (0 \<le> x0 + int j \<and> x0 + int j < h))"
      by (auto simp: image_pixels_def v_def h_def)
    have pe: "elems padded' ! i ! j =
        (if nat py0 \<le> i \<and> i < nat py1 \<and> nat px0 \<le> j \<and> j < nat px1
         then elems src ! (i - nat py0) ! (j - nat px0)
         else elems (full H W (0::'a)) ! i ! j)"
    proof (rule set_slice2_nth [OF p])
      show "i < nrows (full H W (0::'a))" using i shd by simp
      show "j < ncols (full H W (0::'a))" using j shd by simp
      show "0 \<le> py0" by (rule ry(4))
      show "py0 \<le> py1" by (rule ry(5))
      show "py1 \<le> int (nrows (full H W (0::'a)))" using ry(6) shd by simp
      show "0 \<le> px0" by (rule rx(4))
      show "px0 \<le> px1" by (rule rx(5))
      show "px1 \<le> int (ncols (full H W (0::'a)))" using rx(6) shd by simp
      show "nrows src = nat (py1 - py0)" using ry(7) ssh by simp
      show "ncols src = nat (px1 - px0)" using rx(7) ssh by simp
    qed
    have me: "elems m ! i ! j =
        (if nat py0 \<le> i \<and> i < nat py1 \<and> nat px0 \<le> j \<and> j < nat px1
         then False else elems (fill_all (full H W False) True) ! i ! j)"
      unfolding m_def
    proof (rule fill_slice2_nth)
      show "i < nrows (fill_all (full H W False) True)" using i shf by simp
      show "j < ncols (fill_all (full H W False) True)" using j shf by simp
      show "0 \<le> py0" by (rule ry(4))
      show "py0 \<le> py1" by (rule ry(5))
      show "py1 \<le> int (nrows (fill_all (full H W False) True))" using ry(6) shf by simp
      show "0 \<le> px0" by (rule rx(4))
      show "px0 \<le> px1" by (rule rx(5))
      show "px1 \<le> int (ncols (fill_all (full H W False) True))" using rx(6) shf by simp
    qed
    have fa: "elems (fill_all (full H W False) True) ! i ! j = True"
      using i j by (simp add: fill_all_nth full_def)
    have z: "elems (full H W (0::'a)) ! i ! j = 0"
      using i j by (rule full_nth)
    show ?thesis
    proof (cases "(y0 + int i, x0 + int j) \<in> image_pixels img")
      case True
      then have iny: "0 \<le> y0 + int i" "y0 + int i < v" and inx: "0 \<le> x0 + int j" "x0 + int j < h"
        using mem by auto
      have ins: "nat py0 \<le> i \<and> i < nat py1 \<and> nat px0 \<le> j \<and> j < nat px1"
        using inr inc iny inx by simp
      have "elems src ! (i - nat py0) ! (j - nat px0)
            = elems (pixels img) ! (nat sy0 + (i - nat py0)) ! (nat sx0 + (j - nat px0))"
        unfolding src_def
        by (rule slice2_nth [OF wfp sb ry(3) [OF iny] rx(3) [OF inx]])
      also have "\<dots> = elems (pixels img) ! nat (y0 + int i) ! nat (x0 + int j)"
        using ry(2) [OF iny] rx(2) [OF inx] by simp
      finally have "elems src ! (i - nat py0) ! (j - nat px0)
            = elems (pixels img) ! nat (y0 + int i) ! nat (x0 + int j)" .
      moreover have "elems padded' ! i ! j = elems src ! (i - nat py0) ! (j - nat px0)"
        by (subst pe) (rule if_P [OF ins])
      moreover have "elems m ! i ! j = False"
        by (subst me) (rule if_P [OF ins])
      ultimately show ?thesis using True by simp
    next
      case False
      then have nin: "\<not> (nat py0 \<le> i \<and> i < nat py1 \<and> nat px0 \<le> j \<and> j < nat px1)"
        using mem inr inc by blast
      have "elems padded' ! i ! j = elems (full H W (0::'a)) ! i ! j"
        by (subst pe) (rule if_not_P [OF nin])
      moreover have "elems m ! i ! j = elems (fill_all (full H W False) True) ! i ! j"
        by (subst me) (rule if_not_P [OF nin])
      ultimately show ?thesis using False fa z by simp
    qed
  qed
  have "crop_image_to_rect img xc yc xmin xmax ymin ymax
         = Inr (Some (\<lparr>pixels = padded', mask = Some m\<rparr>, xc - real_of_int x0, yc - real_of_int y0))
     \<and> mask \<lparr>pixels = padded', mask = Some m\<rparr> = Some m \<and> wf_image \<lparr>pixels = padded', mask = Some m\<rparr>
     \<and> nrows (pixels \<lparr>pixels = padded', mask = Some m\<rparr>) = nat (y1 - y0)
     \<and> ncols (pixels \<lparr>pixels = padded', mask = Some m\<rparr>) = nat (x1 - x0)
     \<and> (\<forall>i j. i < nat (y1 - y0) \<longrightarrow> j < nat (x1 - x0) \<longrightarrow>
           (if (y0 + int i, x0 + int j) \<in> image_pixels img
            then elems (pixels \<lparr>pixels = padded', mask = Some m\<rparr>) ! i ! j
                   = elems (pixels img) ! nat (y0 + int i) ! nat (x0 + int j)
                 \<and> \<not> elems m ! i ! j
            else elems (pixels \<lparr>pixels = padded', mask = Some m\<rparr>) ! i ! j = 0 \<and> elems m ! i ! j))"
    using c wfres shp px unfolding H_def W_def by simp
  then show ?thesis by blast
qed

theorem crop_padded_contents_witness:
  "wf_image sample_image
   \<and> (\<exists>res m. crop_image_to_rect sample_image 1 1 (- 1) 2 1 4 = Inr (Some (res, 2, 0))
        \<and> mask res = Some m \<and> wf_image res
        \<and> nrows (pixels res) = 3 \<and> ncols (pixels res) = 3
        \<and> elems (pixels res) ! 0 ! 0 = 0 \<and> elems m ! 0 ! 0
        \<and> elems (pixels res) ! 0 ! 1 = 4 \<and> \<not> elems m ! 0 ! 1
        \<and> elems (pixels res) ! 2 ! 2 = 0 \<and> elems m ! 2 ! 2)"
proof -
  have big: "3 \<le> py_int 4 - py_int 1" "3 \<le> py_int 2 - py_int (- 1)" by simp_all
  have ov: "request_pixels (py_int (- 1)) (py_int 2) (py_int 1) (py_int 4)
              \<inter> image_pixels sample_image \<noteq> {}"
    using sample_overlap by simp
  have out: "py_int (- 1) < 0 \<or> py_int 2 > int (ncols (pixels sample_image))
             \<or> py_int 1 < 0 \<or> py_int 4 > int (nrows (pixels sample_image))"
    by simp
  obtain res m where
    r: "crop_image_to_rect sample_image 1 1 (- 1) 2 1 4
          = Inr (Some (res, 1 - real_of_int (py_int (- 1)), 1 - real_of_int (py_int 1)))"
       "mask res = Some m" "wf_image res"
       "nrows (pixels res) = nat (py_int 4 - py_int 1)"
       "ncols (pixels res) = nat (py_int 2 - py_int (- 1))"
    and px: "\<And>i j. i < nat (py_int 4 - py_int 1) \<Longrightarrow> j < nat (py_int 2 - py_int (- 1)) \<Longrightarrow>
           (if (py_int 1 + int i, py_int (- 1) + int j) \<in> image_pixels sample_image
            then elems (pixels res) ! i ! j
                   = elems (pixels sample_image) ! nat (py_int 1 + int i) ! nat (py_int (- 1) + int j)
                 \<and> \<not> elems m ! i ! j
            else elems (pixels res) ! i ! j = 0 \<and> elems m ! i ! j)"
    using crop_padded_contents [OF wf_sample_image big ov out, of 1 1] by blast
  have mem: "(1, - 1) \<notin> image_pixels sample_image" "(1, 0) \<in> image_pixels sample_image"
    "(3, 1) \<notin> image_pixels sample_image"
    by (simp_all add: image_pixels_def sample_image_def)
  have "elems (pixels res) ! 0 ! 0 = 0 \<and> elems m ! 0 ! 0"
    using px [of 0 0] mem by simp
  moreover have "elems (pixels res) ! 0 ! 1 = 4 \<and> \<not> elems m ! 0 ! 1"
    using px [of 0 1] mem by (simp add: sample_image_def)
  moreover have "elems (pixels res) ! 2 ! 2 = 0 \<and> elems m ! 2 ! 2"
    using px [of 2 2] mem by simp
  ultimately show ?thesis
    using r wf_sample_image by (intro conjI exI [of _ res] exI [of _ m]) simp_all
qed

text \<open>
  C10.  When the requested rectangle (truncated to integers, at least 3 by 3) lies fully
  inside the image bounds, \<open>crop_image_to_rect\<close> returns exactly the sub-image
  \<^verbatim>\<open>image[ymin:ymax, xmin:xmax]\<close>, of the requested size and with the source's pixels;
  no mask is introduced: the result carries a mask only if the input image did.
\<close>

theorem crop_inside_is_slice:
  fixes img :: "('a::zero) image" and xmin xmax ymin ymax :: real
  defines "x0 \<equiv> py_int xmin" and "x1 \<equiv> py_int xmax" and "y0 \<equiv> py_int ymin" and "y1 \<equiv> py_int ymax"
  assumes wf: "wf_image img"
    and big: "3 \<le> y1 - y0" "3 \<le> x1 - x0"
    and inside: "0 \<le> x0" "x1 \<le> int (ncols (pixels img))" "0 \<le> y0" "y1 \<le> int (nrows (pixels img))"
  shows "\<exists>res.
       crop_image_to_rect img xc yc xmin xmax ymin ymax
         = Inr (Some (res, xc - real_of_int x0, yc - real_of_int y0))
     \<and> res = image_slice img y0 y1 x0 x1
     \<and> (mask res = None) = (mask img = None)
     \<and> nrows (pixels res) = nat (y1 - y0) \<and> ncols (pixels res) = nat (x1 - x0)
     \<and> (\<forall>i j. i < nat (y1 - y0) \<longrightarrow> j < nat (x1 - x0) \<longrightarrow>
           elems (pixels res) ! i ! j = elems (pixels img) ! (nat y0 + i) ! (nat x0 + j))"
proof -
  let ?res = "image_slice img y0 y1 x0 x1"
  have c: "crop_image_to_rect img xc yc xmin xmax ymin ymax
         = Inr (Some (?res, xc - real_of_int x0, yc - real_of_int y0))"
    using big inside unfolding x0_def x1_def y0_def y1_def by (intro crop_inside) simp_all
  have wfp: "wf_ndarray (pixels img)" using wf by (simp add: wf_image_def)
  have b: "0 \<le> y0" "y0 \<le> y1" "y1 \<le> int (nrows (pixels img))"
          "0 \<le> x0" "x0 \<le> x1" "x1 \<le> int (ncols (pixels img))"
    using big inside by simp_all
  have sh: "nrows (pixels ?res) = nat (y1 - y0)" "ncols (pixels ?res) = nat (x1 - x0)"
    using slice2_shape [OF b] by (simp_all add: image_slice_def)
  have m: "(mask ?res = None) = (mask img = None)"
    by (simp add: image_slice_def)
  have px: "elems (pixels ?res) ! i ! j = elems (pixels img) ! (nat y0 + i) ! (nat x0 + j)"
    if "i < nat (y1 - y0)" "j < nat (x1 - x0)" for i j
    using slice2_nth [OF wfp b that] by (simp add: image_slice_def)
  show ?thesis
    by (intro exI [of _ ?res] conjI allI impI) (simp_all add: c sh m px)
qed

theorem crop_inside_is_slice_witness:
  "wf_image sample_image
   \<and> crop_image_to_rect sample_image 1 1 0 3 0 3 = Inr (Some (sample_image, 1, 1))"
proof -
  have big: "3 \<le> py_int 3 - py_int 0" by simp
  have inside: "0 \<le> py_int 0" "py_int 3 \<le> int (ncols (pixels sample_image))"
    "py_int 3 \<le> int (nrows (pixels sample_image))"
    by (simp_all add: sample_image_def)
  have sl: "image_slice sample_image 0 3 0 3 = sample_image"
    by (simp add: image_slice_def slice2_def slice_indices_def sample_image_def)
  show ?thesis
    using crop_inside_is_slice [OF wf_sample_image big big inside(1,2,1,3), of 1 1] sl wf_sample_image
    by auto
qed

section \<open>Claims about sampling along a line\<close>

text \<open>
  C5.  \<open>values_along_line\<close> never indexes the image out of bounds, whatever the
  endpoints: on a well-formed image it always returns its four arrays (no exception),
  every returned \<open>x\<close> lies in \<open>[0, width)\<close> and every returned \<open>y\<close> in \<open>[0, height)\<close>,
  and when every pixel of the line is outside the image the four arrays are empty.
\<close>

theorem values_along_line_in_bounds:
  fixes img :: "'a image" and x0 y0 x1 y1 :: real
  assumes wf: "wf_image img"
  shows "\<exists>x y z s.
      values_along_line img x0 y0 x1 y1 = Inr (x, y, z, s)
    \<and> list_all (\<lambda>px. 0 \<le> px \<and> px < real (ncols (pixels img))) x
    \<and> list_all (\<lambda>py. 0 \<le> py \<and> py < real (nrows (pixels img))) y
    \<and> (list_all (\<lambda>(r, c). \<not> in_bounds (int (nrows (pixels img))) (int (ncols (pixels img))) r c)
          (line_points (line (py_round y0) (py_round x0) (py_round y1) (py_round x1)))
        \<longrightarrow> x = [] \<and> y = [] \<and> z = [] \<and> s = [])"
proof -
  obtain rr cc z d where
    r: "values_along_line img x0 y0 x1 y1 = Inr (map real_of_int cc, map real_of_int rr, z, d)"
    and l: "length cc = length rr" "length z = length rr" "length d = length rr"
    and br: "list_all (\<lambda>r. 0 \<le> r \<and> r < int (nrows (pixels img))) rr"
    and bc: "list_all (\<lambda>c. 0 \<le> c \<and> c < int (ncols (pixels img))) cc"
    and e: "list_all (\<lambda>(r, c). \<not> in_bounds (int (nrows (pixels img))) (int (ncols (pixels img))) r c)
          (line_points (line (py_round y0) (py_round x0) (py_round y1) (py_round x1)))
        \<longrightarrow> rr = []"
    using values_along_line_core [OF wf, of x0 y0 x1 y1] by blast
  have "list_all (\<lambda>px. 0 \<le> px \<and> px < real (ncols (pixels img))) (map real_of_int cc)"
    using bc by (auto simp: list_all_iff)
  moreover have "list_all (\<lambda>py. 0 \<le> py \<and> py < real (nrows (pixels img))) (map real_of_int rr)"
    using br by (auto simp: list_all_iff)
  moreover have "list_all (\<lambda>(r, c). \<not> in_bounds (int (nrows (pixels img))) (int (ncols (pixels img))) r c)
          (line_points (line (py_round y0) (py_round x0) (py_round y1) (py_round x1)))
        \<longrightarrow> map real_of_int cc = [] \<and> map real_of_int rr = [] \<and> z = [] \<and> d = []"
    using e l by auto
  ultimately show ?thesis using r by blast
qed

theorem values_along_line_in_bounds_witness:
  "wf_image sample_image \<and> values_along_line sample_image 5 5 7 5 = Inr ([], [], [], [])"
proof -
  have out: "list_all (\<lambda>(r, c). \<not> in_bounds (int (nrows (pixels sample_image)))
                 (int (ncols (pixels sample_image))) r c)
          (line_points (line (py_round 5) (py_round 5) (py_round 5) (py_round 7)))"
    by (simp add: line_outside line_points_def in_bounds_def sample_image_def)
  show ?thesis
    using values_along_line_in_bounds [OF wf_sample_image, of 5 5 7 5] out wf_sample_image
    by auto
qed

text \<open>
  C9.  The four arrays \<open>(x, y, z, s)\<close> returned by \<open>values_along_line\<close> always have
  equal length, for every well-formed image, masked or not, and every choice of
  endpoints.
\<close>

theorem values_along_line_equal_lengths:
  fixes img :: "'a image" and x0 y0 x1 y1 :: real
  assumes wf: "wf_image img"
  shows "\<exists>x y z s.
      values_along_line img x0 y0 x1 y1 = Inr (x, y, z, s)
    \<and> length x = length y \<and> length y = length z \<and> length z = length s"
proof -
  obtain rr cc z d where
    "values_along_line img x0 y0 x1 y1 = Inr (map real_of_int cc, map real_of_int rr, z, d)"
    "length cc = length rr" "length z = length rr" "length d = length rr"
    using values_along_line_core [OF wf, of x0 y0 x1 y1] by blast
  then show ?thesis by simp
qed

theorem values_along_line_equal_lengths_witness:
  "wf_image masked_sample_image
   \<and> values_along_line masked_sample_image 0 0 2 0 = Inr ([0, 2], [0, 0], [1, 3], [- 1, 1])
   \<and> length [0, 2 :: real] = length [0, 0 :: real]"
  using values_along_line_equal_lengths [OF wf_masked_sample_image, of 0 0 2 0]
    values_along_masked_row wf_masked_sample_image
  by simp

section \<open>Claims about the integration rectangle, rotation and test images\<close>

text \<open>
  C6.  For every image, centre, \<open>d_major\<close>, \<open>phi\<close> and \<open>mask_diameters\<close>, when
  \<open>d_minor\<close> is \<^verbatim>\<open>None\<close>, \<open>crop_image_to_integration_rect\<close> returns the input image
  and the centre unchanged: nothing is cropped, padded or masked.
\<close>

theorem crop_integration_rect_no_minor:
  "crop_image_to_integration_rect img xc_px yc_px d_major None phi mask_diameters
     = Inr (Some (img, xc_px, yc_px))"
  by (simp add: crop_image_to_integration_rect_def)

text \<open>
  C7.  \<open>create_test_image\<close> raises \<^verbatim>\<open>ValueError\<close>, before any image is built, whenever
  the number of columns or rows is not a positive Python int, whenever \<open>phi\<close> is not
  \<^verbatim>\<open>None\<close> and \<open>|phi| > 2.1 * pi\<close>, and whenever \<open>max_value\<close> is negative or at least
  \<open>2^16\<close>; the result is then the error alone.
\<close>

theorem create_test_image_rejects_invalid:
  assumes "max_value < 0 \<or> 2 ^ 16 \<le> max_value
         \<or> \<not> isinstance_int h \<or> num_value h \<le> 0
         \<or> \<not> isinstance_int v \<or> num_value v \<le> 0
         \<or> (\<exists>p. phi = Some p \<and> \<bar>p\<bar> > 21 / 10 * pi)"
  shows "\<exists>msg. create_test_image ndimage_rotate np_random h v xc_px yc_px d_major d_minor phi
                 noise ntype max_value = Inl (ValueError msg)"
  using assms unfolding create_test_image_def by (auto split: option.splits)

theorem create_test_image_rejects_invalid_witness:
  "num_value (PyInt 0) \<le> 0
   \<and> create_test_image (\<lambda>a deg. a) (\<lambda>kind noise v h. full v h 0) (PyInt 0) (PyInt 5) 2 2 3 2 (Some 0)
        0 ''poisson'' 255 = Inl (ValueError ''number of columns must be positive'')"
proof -
  have "\<exists>msg. create_test_image (\<lambda>a deg. a) (\<lambda>kind noise v h. full v h 0) (PyInt 0) (PyInt 5) 2 2 3 2
           (Some 0) 0 ''poisson'' 255 = Inl (ValueError msg)"
    by (rule create_test_image_rejects_invalid) simp
  then show ?thesis by (simp add: create_test_image_def)
qed

text \<open>
  C8 says that \<open>rotate_image\<close> returns an array of the shape of its input for every
  image and angle.  When it returns, it does (\<open>rotate_image_shape\<close>), and without an
  angle it returns its input (\<open>rotate_image_None\<close>).  But it does not always return:
  for a 4 by 4 image turned by \<open>pi\<close> about the point \<open>(1.5, 4.25)\<close>, just below the
  last row, the vertical offset is \<open>-5\<close> and the length \<open>vlen\<close> is \<open>-1\<close>; the target
  slice \<^verbatim>\<open>s[5:4, 0:4]\<close> is empty while the source slice \<^verbatim>\<open>rotated[0:-1, 0:4]\<close> has three
  rows, and the assignment raises \<^verbatim>\<open>ValueError\<close>.
\<close>

theorem rotate_image_off_image_centre_raises:
  "rotate_image (\<lambda>a deg. half_turn a) (full 4 4 (1::int)) (3 / 2) (17 / 4) (Some pi)
     = Inl (ValueError ''could not broadcast input array'')"
  apply (simp add: rotate_image_def Let_def rotate_points_def half_turn_def full_def)
  apply (simp add: py_int_def set_slice2_def slice2_def slice_indices_def Let_def)
  done

end
